theory Spec2Isabelle
  imports Main
begin

section \<open>JavaScript values\<close>

text \<open>
  The values that flow through the importer: what the GitHub listing puts into an issue and
  what Airtable returns in a row's \<open>fields\<close> object. Numbers are the integers (issue
  numbers and whole-number cells); objects keep their properties in insertion order.
\<close>

datatype jsval =
    JUndefined
  | JNull
  | JBool bool
  | JNum int
  | JStr string
  | JArr "jsval list"
  | JObj "(string \<times> jsval) list"

datatype error = TypeError | DestinationError

type_synonym jsobject = "(string \<times> jsval) list"

text \<open>\<open>!!v\<close>: every value is truthy except undefined, null, false, 0 and the empty string.\<close>

fun truthy :: "jsval \<Rightarrow> bool" where
  "truthy JUndefined = False"
| "truthy JNull = False"
| "truthy (JBool b) = b"
| "truthy (JNum n) = (n \<noteq> 0)"
| "truthy (JStr s) = (s \<noteq> [])"
| "truthy (JArr vs) = True"
| "truthy (JObj ps) = True"

text \<open>\<open>v instanceof Array\<close>.\<close>

fun instanceofArray :: "jsval \<Rightarrow> bool" where
  "instanceofArray (JArr vs) = True"
| "instanceofArray v = False"

text \<open>\<open>v || undefined\<close>.\<close>

definition orUndefined :: "jsval \<Rightarrow> jsval" where
  "orUndefined v = (if truthy v then v else JUndefined)"

text \<open>
  \<open>a !== b\<close> for a value \<open>a\<close> read from a destination row and a value \<open>b\<close> built by
  the projection: primitives are compared by type and value, and an array or object is a
  reference, which never equals a value created elsewhere.
\<close>

fun isReference :: "jsval \<Rightarrow> bool" where
  "isReference (JArr vs) = True"
| "isReference (JObj ps) = True"
| "isReference v = False"

definition strictNotEqual :: "jsval \<Rightarrow> jsval \<Rightarrow> bool" where
  "strictNotEqual a b = (isReference a \<or> isReference b \<or> a \<noteq> b)"

text \<open>\<open>obj[key]\<close>: the property's value, undefined when the object has no such property.\<close>

definition getField :: "jsobject \<Rightarrow> string \<Rightarrow> jsval" where
  "getField obj key = (case map_of obj key of None \<Rightarrow> JUndefined | Some v \<Rightarrow> v)"

subsection \<open>Strings: join, split and the string form of a value\<close>

text \<open>\<open>parts.join(',')\<close>.\<close>

fun join_comma :: "string list \<Rightarrow> string" where
  "join_comma [] = []"
| "join_comma [s] = s"
| "join_comma (s # t # ts) = s @ CHR '','' # join_comma (t # ts)"

text \<open>\<open>s.split(',')\<close>: the pieces between commas; the empty string gives one empty piece.\<close>

fun split_comma :: "string \<Rightarrow> string list" where
  "split_comma [] = [[]]"
| "split_comma (c # cs) =
     (if c = CHR '','' then [] # split_comma cs
      else (case split_comma cs of
              [] \<Rightarrow> [[c]]
            | piece # pieces \<Rightarrow> (c # piece) # pieces))"

definition digit_char :: "nat \<Rightarrow> char" where
  "digit_char d = ''0123456789'' ! d"

fun string_of_nat :: "nat \<Rightarrow> string" where
  "string_of_nat n =
     (if n < 10 then [digit_char n]
      else string_of_nat (n div 10) @ [digit_char (n mod 10)])"

declare string_of_nat.simps [simp del]

definition string_of_int :: "int \<Rightarrow> string" where
  "string_of_int i =
     (if i < 0 then CHR ''-'' # string_of_nat (nat (- i)) else string_of_nat (nat i))"

text \<open>
  \<open>String(v)\<close>, which is also how a value used as a property key is turned into the key:
  an array is its elements' string forms joined by commas, with undefined and null
  elements rendered empty.
\<close>

fun toString :: "jsval \<Rightarrow> string" where
  "toString JUndefined = ''undefined''"
| "toString JNull = ''null''"
| "toString (JBool b) = (if b then ''true'' else ''false'')"
| "toString (JNum n) = string_of_int n"
| "toString (JStr s) = s"
| "toString (JArr vs) =
     join_comma (map (\<lambda>v. if v = JUndefined \<or> v = JNull then [] else toString v) vs)"
| "toString (JObj ps) = ''[object Object]''"

section \<open>Issues and destination rows\<close>

record label =
  name :: string

record user =
  login :: string

text \<open>
  An issue as the GitHub listing returns it; \<open>body\<close> and \<open>assignee\<close> are null when the
  issue has no description or nobody is assigned.
\<close>

record issue =
  created_at :: string
  updated_at :: string
  title :: string
  body :: "string option"
  html_url :: string
  number :: nat
  labels :: "label list"
  assignee :: "user option"
  state :: string

text \<open>
  \<open>{ fields }\<close> is a row to create; \<open>{ id, fields }\<close> is a row of the table, as read
  from it or as sent to update it.
\<close>

record new_row =
  fields_row :: jsobject

record airtable_row = new_row +
  id_row :: string

section \<open>fieldsFromIssue\<close>

definition fieldsFromIssue :: "issue \<Rightarrow> jsobject" where
  "fieldsFromIssue i =
     [(''Created At'', JStr (created_at i)),
      (''Updated At'', JStr (updated_at i)),
      (''Issue Number'', JNum (int (number i))),
      (''Name'', JStr (title i)),
      (''Description'', (case body i of None \<Rightarrow> JNull | Some b \<Rightarrow> JStr b)),
      (''Github URL'', JStr (html_url i)),
      (''Labels'', JStr (join_comma (map name (labels i)))),
      (''Status'', JStr (state i))]
     @ (case assignee i of
          None \<Rightarrow> []
        | Some a \<Rightarrow> [(''Assigned to'', JStr (CHR ''@'' # login a))])"

section \<open>importIssuesToAirtable\<close>

subsection \<open>The lookup object\<close>

text \<open>
  \<open>Object.fromEntries(existingRows.map((row) => [row.fields['Issue Number'], row]))\<close>:
  the entries are stored one after the other under the string form of their key, a later
  entry replacing an earlier one with the same key.
\<close>

definition rowEntry :: "airtable_row \<Rightarrow> string \<times> airtable_row" where
  "rowEntry row = (toString (getField (fields_row row) ''Issue Number''), row)"

fun fromEntries :: "(string \<times> 'v) list \<Rightarrow> (string \<rightharpoonup> 'v) \<Rightarrow> (string \<rightharpoonup> 'v)" where
  "fromEntries [] obj = obj"
| "fromEntries ((k, v) # entries) obj = fromEntries entries (obj(k \<mapsto> v))"

definition issueNumbersToExistingRows :: "airtable_row list \<Rightarrow> (string \<rightharpoonup> airtable_row)" where
  "issueNumbersToExistingRows existingRows = fromEntries (map rowEntry existingRows) Map.empty"

text \<open>\<open>issueNumbersToExistingRows[issue.number]\<close>.\<close>

definition lookupRow :: "(string \<rightharpoonup> airtable_row) \<Rightarrow> issue \<Rightarrow> airtable_row option" where
  "lookupRow rowsByNumber i = rowsByNumber (toString (JNum (int (number i))))"

subsection \<open>Chunks of ten\<close>

text \<open>\<open>rows.slice(a, b)\<close> for \<open>0 \<le> a \<le> b\<close>.\<close>

definition slice :: "'a list \<Rightarrow> nat \<Rightarrow> nat \<Rightarrow> 'a list" where
  "slice rows a b = take (b - a) (drop a rows)"

function chunkLoop :: "'a list \<Rightarrow> nat \<Rightarrow> 'a list list \<Rightarrow> 'a list list" where
  "chunkLoop rows startIndex chunks =
     (if startIndex < length rows
      then chunkLoop rows (startIndex + 10) (chunks @ [slice rows startIndex (startIndex + 10)])
      else chunks)"
  by pat_completeness auto
termination
  by (relation "measure (\<lambda>(rows, startIndex, chunks). length rows - startIndex)") auto

declare chunkLoop.simps [simp del]

definition chunksOf10 :: "'a list \<Rightarrow> 'a list list" where
  "chunksOf10 rows = chunkLoop rows 0 []"

text \<open>
  \<open>Promise.all\<close> over the chunk calls: the results in the order of the calls, or the
  failure of a call that failed.
\<close>

fun promiseAll :: "(error + 'a) list \<Rightarrow> error + 'a list" where
  "promiseAll [] = Inr []"
| "promiseAll (Inl e # ps) = Inl e"
| "promiseAll (Inr r # ps) = (case promiseAll ps of Inl e \<Rightarrow> Inl e | Inr rs \<Rightarrow> Inr (r # rs))"

text \<open>\<open>results.reduce((memo, chunkResult) => memo + chunkResult.length, 0)\<close>.\<close>

definition countResults :: "'c list list \<Rightarrow> nat" where
  "countResults results = foldl (\<lambda>memo chunkResult. memo + length chunkResult) 0 results"

text \<open>
  The tail both writers share: cut the rows into chunks, send every chunk to the table
  (\<open>send\<close> is \<open>airtableTable.create\<close> or \<open>airtableTable.update\<close>, returning the records
  written), and add up how many records came back.
\<close>

definition writeChunks :: "('r list \<Rightarrow> error + 'c list) \<Rightarrow> 'r list \<Rightarrow> error + nat" where
  "writeChunks send rows =
     (case promiseAll (map send (chunksOf10 rows)) of
        Inl e \<Rightarrow> Inl e
      | Inr results \<Rightarrow> Inr (countResults results))"

subsection \<open>insertNewRows\<close>

definition newRows :: "issue list \<Rightarrow> new_row list" where
  "newRows newIssues = map (\<lambda>issue. \<lparr>fields_row = fieldsFromIssue issue\<rparr>) newIssues"

definition insertNewRows ::
  "(new_row list \<Rightarrow> error + 'c list) \<Rightarrow> issue list \<Rightarrow> error + nat" where
  "insertNewRows create newIssues = writeChunks create (newRows newIssues)"

subsection \<open>updateExistingRows\<close>

text \<open>
  The destructuring \<open>{ 'Created At': _, 'Updated At': _2, ...fields }\<close>: the projection
  without its two timestamps, the other properties in their order.
\<close>

definition withoutTimestamps :: "jsobject \<Rightarrow> jsobject" where
  "withoutTimestamps obj =
     filter (\<lambda>(k, v). k \<noteq> ''Created At'' \<and> k \<noteq> ''Updated At'') obj"

text \<open>The inner loop over \<open>newArrValues\<close>: true when it reaches its \<open>return true\<close>.\<close>

fun valueMissing :: "jsval list \<Rightarrow> string list \<Rightarrow> bool" where
  "valueMissing existingValues [] = False"
| "valueMissing existingValues (v # rest) =
     (if JStr v \<notin> set existingValues then True else valueMissing existingValues rest)"

text \<open>
  What one pass of the loop over the keys does: return from the filter callback with a
  verdict, go on to the next key, or throw (calling \<open>split\<close> on a value that is not a
  string).
\<close>

datatype step = Return bool | Continue

text \<open>
  The two lists the array branch compares: the truthy entries of the stored array, and the
  non-empty pieces of the new string.
\<close>

definition existingArrValues :: "jsval list \<Rightarrow> jsval list" where
  "existingArrValues stored = filter truthy stored"

definition newArrValues :: "string \<Rightarrow> string list" where
  "newArrValues s = filter (\<lambda>v. v \<noteq> []) (split_comma s)"

definition compareArray :: "jsval list \<Rightarrow> jsval \<Rightarrow> error + step" where
  "compareArray stored new =
     (if length (existingArrValues stored) > 0 \<and> \<not> truthy new then Inr (Return True)
      else (case new of
              JStr s \<Rightarrow>
                if length (existingArrValues stored) \<noteq> length (newArrValues s)
                then Inr (Return True)
                else if valueMissing (existingArrValues stored) (newArrValues s)
                then Inr (Return True)
                else Inr (Return False)
            | _ \<Rightarrow> Inl TypeError))"

definition compareField :: "jsobject \<Rightarrow> jsobject \<Rightarrow> string \<Rightarrow> error + step" where
  "compareField existingFields newFields key =
     (case getField existingFields key of
        JArr stored \<Rightarrow> compareArray stored (getField newFields key)
      | existing \<Rightarrow>
          if strictNotEqual (orUndefined existing) (orUndefined (getField newFields key))
          then Inr (Return True)
          else Inr Continue)"

fun compareKeys :: "jsobject \<Rightarrow> jsobject \<Rightarrow> string list \<Rightarrow> error + bool" where
  "compareKeys existingFields newFields [] = Inr False"
| "compareKeys existingFields newFields (key # keys) =
     (case compareField existingFields newFields key of
        Inl e \<Rightarrow> Inl e
      | Inr (Return b) \<Rightarrow> Inr b
      | Inr Continue \<Rightarrow> compareKeys existingFields newFields keys)"

text \<open>
  The filter callback. Reading \<open>.fields\<close> of a missing row would throw; the callback is
  only run on issues that have a row.
\<close>

definition needsUpdate :: "(string \<rightharpoonup> airtable_row) \<Rightarrow> issue \<Rightarrow> error + bool" where
  "needsUpdate rowsByNumber i =
     (let newFields = withoutTimestamps (fieldsFromIssue i) in
      case lookupRow rowsByNumber i of
        None \<Rightarrow> Inl TypeError
      | Some existingRow \<Rightarrow> compareKeys (fields_row existingRow) newFields (map fst newFields))"

text \<open>\<open>xs.filter(p)\<close> for a callback that may throw: the first throw ends the filter.\<close>

fun filterThrowing :: "('a \<Rightarrow> error + bool) \<Rightarrow> 'a list \<Rightarrow> error + 'a list" where
  "filterThrowing p [] = Inr []"
| "filterThrowing p (x # xs) =
     (case p x of
        Inl e \<Rightarrow> Inl e
      | Inr keep \<Rightarrow>
          (case filterThrowing p xs of
             Inl e \<Rightarrow> Inl e
           | Inr ys \<Rightarrow> Inr (if keep then x # ys else ys)))"

text \<open>The map callback: the row to send, under the identifier of the issue's row.\<close>

definition updateRow :: "(string \<rightharpoonup> airtable_row) \<Rightarrow> issue \<Rightarrow> error + airtable_row" where
  "updateRow rowsByNumber i =
     (case lookupRow rowsByNumber i of
        None \<Rightarrow> Inl TypeError
      | Some existingRow \<Rightarrow> Inr \<lparr>fields_row = fieldsFromIssue i, id_row = id_row existingRow\<rparr>)"

text \<open>\<open>xs.map(f)\<close> for a callback that may throw.\<close>

fun mapThrowing :: "('a \<Rightarrow> error + 'b) \<Rightarrow> 'a list \<Rightarrow> error + 'b list" where
  "mapThrowing f [] = Inr []"
| "mapThrowing f (x # xs) =
     (case f x of
        Inl e \<Rightarrow> Inl e
      | Inr y \<Rightarrow> (case mapThrowing f xs of Inl e \<Rightarrow> Inl e | Inr ys \<Rightarrow> Inr (y # ys)))"

text \<open>The issues the filter keeps, and the rows the map makes of them.\<close>

definition changedIssues ::
  "(string \<rightharpoonup> airtable_row) \<Rightarrow> issue list \<Rightarrow> error + issue list" where
  "changedIssues rowsByNumber existingIssues =
     filterThrowing (needsUpdate rowsByNumber) existingIssues"

definition rowsToUpdate ::
  "(string \<rightharpoonup> airtable_row) \<Rightarrow> issue list \<Rightarrow> error + airtable_row list" where
  "rowsToUpdate rowsByNumber existingIssues =
     (case changedIssues rowsByNumber existingIssues of
        Inl e \<Rightarrow> Inl e
      | Inr changed \<Rightarrow> mapThrowing (updateRow rowsByNumber) changed)"

definition updateExistingRows ::
  "(airtable_row list \<Rightarrow> error + 'c list) \<Rightarrow> (string \<rightharpoonup> airtable_row) \<Rightarrow> issue list
     \<Rightarrow> error + nat" where
  "updateExistingRows update rowsByNumber existingIssues =
     (case rowsToUpdate rowsByNumber existingIssues of
        Inl e \<Rightarrow> Inl e
      | Inr rows \<Rightarrow> writeChunks update rows)"

subsection \<open>The two lists and the counts\<close>

text \<open>\<open>issues.filter((i) => !issueNumbersToExistingRows[i.number])\<close> and its complement.\<close>

definition toInsert :: "issue list \<Rightarrow> airtable_row list \<Rightarrow> issue list" where
  "toInsert issues existingRows =
     filter (\<lambda>i. lookupRow (issueNumbersToExistingRows existingRows) i = None) issues"

definition existingIssues :: "issue list \<Rightarrow> airtable_row list \<Rightarrow> issue list" where
  "existingIssues issues existingRows =
     filter (\<lambda>i. lookupRow (issueNumbersToExistingRows existingRows) i \<noteq> None) issues"

definition toUpdateIssues :: "issue list \<Rightarrow> airtable_row list \<Rightarrow> error + issue list" where
  "toUpdateIssues issues existingRows =
     changedIssues (issueNumbersToExistingRows existingRows) (existingIssues issues existingRows)"

definition toUpdate :: "issue list \<Rightarrow> airtable_row list \<Rightarrow> error + airtable_row list" where
  "toUpdate issues existingRows =
     rowsToUpdate (issueNumbersToExistingRows existingRows) (existingIssues issues existingRows)"

text \<open>
  The body of the \<open>try\<close>: both writers are started and awaited together. The \<open>catch\<close>
  logs the error and lets the function return undefined, here \<open>None\<close>.
\<close>

definition importIssuesToAirtable ::
  "(new_row list \<Rightarrow> error + 'c list) \<Rightarrow> (airtable_row list \<Rightarrow> error + 'c list)
     \<Rightarrow> issue list \<Rightarrow> airtable_row list \<Rightarrow> (nat \<times> nat) option" where
  "importIssuesToAirtable create update issues existingRows =
     (let rowsByNumber = issueNumbersToExistingRows existingRows in
      case promiseAll
             [insertNewRows create (toInsert issues existingRows),
              updateExistingRows update rowsByNumber (existingIssues issues existingRows)] of
        Inr [numNewRows, numUpdatedRows] \<Rightarrow> Some (numNewRows, numUpdatedRows)
      | _ \<Rightarrow> None)"

section \<open>The insert-only importer (src/ghair.js)\<close>

text \<open>
  The first importer projects every issue with the same object literal and creates a row
  for each, in chunks of ten.
\<close>

definition allIssues :: "issue list \<Rightarrow> new_row list" where
  "allIssues issues =
     map (\<lambda>i. \<lparr>fields_row =
            [(''Created At'', JStr (created_at i)),
             (''Updated At'', JStr (updated_at i)),
             (''Issue Number'', JNum (int (number i))),
             (''Name'', JStr (title i)),
             (''Description'', (case body i of None \<Rightarrow> JNull | Some b \<Rightarrow> JStr b)),
             (''Github URL'', JStr (html_url i)),
             (''Labels'', JStr (join_comma (map name (labels i)))),
             (''Status'', JStr (state i))]
            @ (case assignee i of
                 None \<Rightarrow> []
               | Some a \<Rightarrow> [(''Assigned to'', JStr (CHR ''@'' # login a))])\<rparr>) issues"

definition importAllIssues ::
  "(new_row list \<Rightarrow> error + 'c list) \<Rightarrow> issue list \<Rightarrow> nat option" where
  "importAllIssues create issues =
     (case writeChunks create (allIssues issues) of
        Inl e \<Rightarrow> None
      | Inr n \<Rightarrow> Some n)"

section \<open>Example data\<close>

text \<open>
  The two issues of the end-to-end scenario: #1 is open, labelled \<open>bug\<close> and unassigned;
  #2 is closed, unlabelled and assigned to alice.
\<close>

definition issue1 :: issue where
  "issue1 = \<lparr>created_at = ''2020-05-01T10:00:00Z'', updated_at = ''2020-05-02T10:00:00Z'',
     title = ''Crash on start'', body = None, html_url = ''https://github.com/o/r/issues/1'',
     number = 1, labels = [\<lparr>name = ''bug''\<rparr>], assignee = None, state = ''open''\<rparr>"

definition issue2 :: issue where
  "issue2 = \<lparr>created_at = ''2020-05-03T10:00:00Z'', updated_at = ''2020-05-04T10:00:00Z'',
     title = ''Docs'', body = Some ''Write them'', html_url = ''https://github.com/o/r/issues/2'',
     number = 2, labels = [], assignee = Some \<lparr>login = ''alice''\<rparr>, state = ''closed''\<rparr>"

text \<open>
  Issue #5, closed, with labels \<open>ui\<close> and \<open>bug\<close>, and rows of the table for it:
  \<open>row5\<close> was written while the issue was open and keeps the labels in a multiple-select
  cell; \<open>row5_string\<close> stores the issue number as text.
\<close>

definition issue5 :: issue where
  "issue5 = \<lparr>created_at = ''2020-06-01T08:00:00Z'', updated_at = ''2020-06-09T08:00:00Z'',
     title = ''Button misaligned'', body = Some ''See screenshot'',
     html_url = ''https://github.com/o/r/issues/5'', number = 5,
     labels = [\<lparr>name = ''ui''\<rparr>, \<lparr>name = ''bug''\<rparr>], assignee = None, state = ''closed''\<rparr>"

definition row5 :: airtable_row where
  "row5 = \<lparr>fields_row =
       [(''Issue Number'', JNum 5), (''Name'', JStr ''Button misaligned''),
        (''Description'', JStr ''See screenshot''),
        (''Github URL'', JStr ''https://github.com/o/r/issues/5''),
        (''Labels'', JArr [JStr ''bug'', JStr ''ui'']), (''Status'', JStr ''open'')],
     id_row = ''recA''\<rparr>"

definition row5_string :: airtable_row where
  "row5_string = \<lparr>fields_row = [(''Issue Number'', JStr ''5'')], id_row = ''recB''\<rparr>"

text \<open>
  A row for issue #2 that stores exactly what the issue projects to, apart from the two
  timestamps; a row for issue #1 whose labels cell repeats an entry; and a row whose issue
  number is itself kept in a multiple-value cell.
\<close>

definition row2_same :: airtable_row where
  "row2_same = \<lparr>fields_row =
       [(''Created At'', JStr ''2019-01-01T00:00:00Z''),
        (''Updated At'', JStr ''2019-01-02T00:00:00Z''),
        (''Issue Number'', JNum 2), (''Name'', JStr ''Docs''),
        (''Description'', JStr ''Write them''),
        (''Github URL'', JStr ''https://github.com/o/r/issues/2''),
        (''Labels'', JStr []), (''Status'', JStr ''closed''),
        (''Assigned to'', JStr ''@alice'')],
     id_row = ''recC''\<rparr>"

definition row1_dup :: airtable_row where
  "row1_dup = \<lparr>fields_row =
       [(''Issue Number'', JNum 1), (''Name'', JStr ''Crash on start''),
        (''Github URL'', JStr ''https://github.com/o/r/issues/1''),
        (''Labels'', JArr [JStr ''bug'', JStr ''bug'']), (''Status'', JStr ''open'')],
     id_row = ''recD''\<rparr>"

definition row5_number_array :: airtable_row where
  "row5_number_array = \<lparr>fields_row = [(''Issue Number'', JArr [JStr ''5''])], id_row = ''recE''\<rparr>"

text \<open>A destination that accepts every chunk it is sent and returns what it wrote.\<close>

definition writeAll :: "'z new_row_scheme list \<Rightarrow> error + jsobject list" where
  "writeAll rows = Inr (map fields_row rows)"

text \<open>
  Two more destinations: one that fails every call, and one that writes only the first
  record of each chunk it is sent.
\<close>

definition rejectAll :: "'z new_row_scheme list \<Rightarrow> error + jsobject list" where
  "rejectAll rows = Inl DestinationError"

definition writeFirst :: "'z new_row_scheme list \<Rightarrow> error + jsobject list" where
  "writeFirst rows = Inr (take 1 (map fields_row rows))"

section \<open>Properties\<close>

subsection \<open>The projection\<close>

lemma keys_fieldsFromIssue:
  "map fst (fieldsFromIssue i) =
     [''Created At'', ''Updated At'', ''Issue Number'', ''Name'', ''Description'', ''Github URL'',
      ''Labels'', ''Status''] @ (case assignee i of None \<Rightarrow> [] | Some a \<Rightarrow> [''Assigned to''])"
  by (simp add: fieldsFromIssue_def split: option.split)

text \<open>
  Claim C9. An issue without assignee is projected to an object with no \<open>Assigned to\<close>
  property; an issue assigned to \<open>a\<close> gets \<open>Assigned to\<close> = \<open>@\<close> followed by the login
  of \<open>a\<close>. The eight other properties are always there, \<open>Labels\<close> being the label names
  joined by commas in the order of the labels (the empty string when there is none). The
  insert-only importer builds the same object.
\<close>

theorem fieldsFromIssue_projection:
  "(assignee i = None \<longrightarrow> map_of (fieldsFromIssue i) ''Assigned to'' = None)
   \<and> (\<forall>a. assignee i = Some a \<longrightarrow>
         map_of (fieldsFromIssue i) ''Assigned to'' = Some (JStr (CHR ''@'' # login a)))
   \<and> map_of (fieldsFromIssue i) ''Created At'' = Some (JStr (created_at i))
   \<and> map_of (fieldsFromIssue i) ''Updated At'' = Some (JStr (updated_at i))
   \<and> map_of (fieldsFromIssue i) ''Issue Number'' = Some (JNum (int (number i)))
   \<and> map_of (fieldsFromIssue i) ''Name'' = Some (JStr (title i))
   \<and> map_of (fieldsFromIssue i) ''Description'' =
         Some (case body i of None \<Rightarrow> JNull | Some b \<Rightarrow> JStr b)
   \<and> map_of (fieldsFromIssue i) ''Github URL'' = Some (JStr (html_url i))
   \<and> map_of (fieldsFromIssue i) ''Labels'' = Some (JStr (join_comma (map name (labels i))))
   \<and> (labels i = [] \<longrightarrow> map_of (fieldsFromIssue i) ''Labels'' = Some (JStr []))
   \<and> map_of (fieldsFromIssue i) ''Status'' = Some (JStr (state i))
   \<and> allIssues [i] = [\<lparr>fields_row = fieldsFromIssue i\<rparr>]"
  by (simp add: fieldsFromIssue_def allIssues_def split: option.split)

theorem fieldsFromIssue_projection_witness:
  "assignee issue1 = None \<and> map_of (fieldsFromIssue issue1) ''Assigned to'' = None
   \<and> map_of (fieldsFromIssue issue1) ''Labels'' = Some (JStr ''bug'')
   \<and> assignee issue2 = Some \<lparr>login = ''alice''\<rparr>
   \<and> map_of (fieldsFromIssue issue2) ''Assigned to'' = Some (JStr ''@alice'')
   \<and> labels issue2 = []
   \<and> map_of (fieldsFromIssue issue2) ''Labels'' = Some (JStr [])"
  using fieldsFromIssue_projection [of issue1] fieldsFromIssue_projection [of issue2]
  by (simp add: issue1_def issue2_def)

subsection \<open>The lookup object\<close>

lemma fromEntries_append:
  "fromEntries (xs @ ys) obj = fromEntries ys (fromEntries xs obj)"
  by (induction xs arbitrary: obj) auto

lemma fromEntries_absent:
  "k \<notin> fst ` set entries \<Longrightarrow> fromEntries entries obj k = obj k"
  by (induction entries arbitrary: obj) auto

lemma fromEntries_None:
  "fromEntries entries obj k = None \<longleftrightarrow> obj k = None \<and> k \<notin> fst ` set entries"
proof (induction entries arbitrary: obj)
  case Nil
  show ?case by simp
next
  case (Cons e entries)
  obtain k' v' where e: "e = (k', v')" by (cases e)
  have "fromEntries (e # entries) obj k = fromEntries entries (obj(k' \<mapsto> v')) k"
    by (simp add: e)
  also have "\<dots> = None \<longleftrightarrow> (obj(k' \<mapsto> v')) k = None \<and> k \<notin> fst ` set entries"
    by (rule Cons.IH)
  also have "\<dots> \<longleftrightarrow> obj k = None \<and> k \<notin> fst ` set (e # entries)"
    by (cases "k = k'") (simp_all add: e)
  finally show ?case .
qed

lemma fromEntries_Some:
  "fromEntries entries obj k = Some v \<Longrightarrow> obj k = Some v \<or> (k, v) \<in> set entries"
proof (induction entries arbitrary: obj)
  case Nil
  then show ?case by simp
next
  case (Cons e entries)
  obtain k' v' where e: "e = (k', v')" by (cases e)
  from Cons.prems e have "fromEntries entries (obj(k' \<mapsto> v')) k = Some v" by simp
  from Cons.IH [OF this] have "(obj(k' \<mapsto> v')) k = Some v \<or> (k, v) \<in> set entries" .
  then show ?case
  proof
    assume "(obj(k' \<mapsto> v')) k = Some v"
    then show ?thesis by (cases "k = k'") (simp_all add: e)
  next
    assume "(k, v) \<in> set entries"
    then show ?thesis by simp
  qed
qed

lemma issueNumbersToExistingRows_last:
  assumes "\<forall>later \<in> set after. fst (rowEntry later) \<noteq> fst (rowEntry row)"
  shows "issueNumbersToExistingRows (before @ row # after) (fst (rowEntry row)) = Some row"
proof -
  have "fst (rowEntry row) \<notin> fst ` set (map rowEntry after)"
    using assms by auto
  then show ?thesis
    by (simp add: issueNumbersToExistingRows_def fromEntries_append fromEntries_absent
          rowEntry_def)
qed

lemma issueNumbersToExistingRows_Some:
  assumes "issueNumbersToExistingRows existingRows k = Some row"
  shows "row \<in> set existingRows \<and> fst (rowEntry row) = k"
proof -
  from assms have "(k, row) \<in> set (map rowEntry existingRows)"
    using fromEntries_Some [of "map rowEntry existingRows" Map.empty k row]
    by (simp add: issueNumbersToExistingRows_def)
  then obtain r where r: "r \<in> set existingRows" and e: "rowEntry r = (k, row)"
    by (auto simp: image_iff)
  from e have "snd (rowEntry r) = row" and "fst (rowEntry r) = k"
    by simp_all
  moreover have "snd (rowEntry r) = r"
    by (simp add: rowEntry_def)
  ultimately show ?thesis
    using r by simp
qed

lemma lookupRow_eq_None:
  "lookupRow (issueNumbersToExistingRows existingRows) i = None
     \<longleftrightarrow> (\<forall>row \<in> set existingRows.
            toString (getField (fields_row row) ''Issue Number'')
              \<noteq> toString (JNum (int (number i))))"
  unfolding lookupRow_def issueNumbersToExistingRows_def
  by (auto simp: fromEntries_None rowEntry_def image_iff)

lemma string_of_int_5: "string_of_int 5 = ''5''"
  by (simp add: string_of_int_def string_of_nat.simps [of 5] digit_char_def)

text \<open>
  Claim C5. Against an empty list of existing rows every issue is to insert and none is to
  update.
\<close>

theorem empty_rows_all_insert:
  "toInsert issues [] = issues \<and> toUpdateIssues issues [] = Inr [] \<and> toUpdate issues [] = Inr []"
  by (simp add: toInsert_def toUpdate_def toUpdateIssues_def existingIssues_def lookupRow_def
        issueNumbersToExistingRows_def rowsToUpdate_def changedIssues_def)

text \<open>
  Claim C10. The join key is compared in string form: an issue has a row exactly when some
  existing row's stored \<open>Issue Number\<close>, turned into a string, equals the string form of the
  issue's number, because the lookup object is keyed by strings. So a row that stores the
  text \<open>5\<close> is the row of issue number 5. The two filters split the issues by this test.
\<close>

theorem join_key_is_string_form:
  "(lookupRow (issueNumbersToExistingRows existingRows) i \<noteq> None)
     = (\<exists>row \<in> set existingRows.
          toString (getField (fields_row row) ''Issue Number'') = toString (JNum (int (number i))))
   \<and> (i \<in> set (existingIssues issues existingRows))
     = (i \<in> set issues \<and> (\<exists>row \<in> set existingRows.
          toString (getField (fields_row row) ''Issue Number'') = toString (JNum (int (number i)))))
   \<and> (i \<in> set (toInsert issues existingRows))
     = (i \<in> set issues \<and> \<not> (\<exists>row \<in> set existingRows.
          toString (getField (fields_row row) ''Issue Number'') = toString (JNum (int (number i)))))"
  by (simp add: existingIssues_def toInsert_def lookupRow_eq_None)

theorem join_key_is_string_form_witness:
  "getField (fields_row row5_string) ''Issue Number'' = JStr ''5''
   \<and> number issue5 = 5
   \<and> lookupRow (issueNumbersToExistingRows [row5_string]) issue5 \<noteq> None
   \<and> issue5 \<in> set (existingIssues [issue5] [row5_string])
   \<and> issue5 \<notin> set (toInsert [issue5] [row5_string])"
proof -
  have stored: "getField (fields_row row5_string) ''Issue Number'' = JStr ''5''"
    by (simp add: row5_string_def getField_def)
  have m: "\<exists>row \<in> set [row5_string].
          toString (getField (fields_row row) ''Issue Number'')
            = toString (JNum (int (number issue5)))"
    by (simp add: stored issue5_def string_of_int_5)
  have "number issue5 = 5" by (simp add: issue5_def)
  with stored m show ?thesis
    using join_key_is_string_form [of "[row5_string]" issue5 "[issue5]"] by simp
qed

text \<open>
  Claim C6. When several existing rows have the same issue number, the lookup object keeps
  the last of them in the order of the list: a row that no later row shares its key with is
  the one found under that key, and an issue of that number is sent for update under that
  row's identifier.
\<close>

theorem last_row_wins:
  assumes "existingRows = before @ row # after"
    and "\<forall>later \<in> set after. fst (rowEntry later) \<noteq> fst (rowEntry row)"
    and "toString (JNum (int (number i))) = fst (rowEntry row)"
  shows "issueNumbersToExistingRows existingRows (fst (rowEntry row)) = Some row
    \<and> lookupRow (issueNumbersToExistingRows existingRows) i = Some row
    \<and> updateRow (issueNumbersToExistingRows existingRows) i
          = Inr \<lparr>fields_row = fieldsFromIssue i, id_row = id_row row\<rparr>"
  using assms issueNumbersToExistingRows_last [of after row before]
  by (simp add: lookupRow_def updateRow_def)

theorem last_row_wins_witness:
  "fst (rowEntry row5) = fst (rowEntry row5_string)
   \<and> issueNumbersToExistingRows [row5, row5_string] ''5'' = Some row5_string
   \<and> lookupRow (issueNumbersToExistingRows [row5, row5_string]) issue5 = Some row5_string
   \<and> updateRow (issueNumbersToExistingRows [row5, row5_string]) issue5
         = Inr \<lparr>fields_row = fieldsFromIssue issue5, id_row = ''recB''\<rparr>"
proof -
  have k: "fst (rowEntry row5_string) = ''5''"
    by (simp add: rowEntry_def row5_string_def getField_def)
  have k': "fst (rowEntry row5) = ''5''"
    by (simp add: rowEntry_def row5_def getField_def string_of_int_5)
  have a: "[row5, row5_string] = [row5] @ row5_string # []" by simp
  have b: "\<forall>later \<in> set []. fst (rowEntry later) \<noteq> fst (rowEntry row5_string)" by simp
  have c: "toString (JNum (int (number issue5))) = fst (rowEntry row5_string)"
    by (simp add: k issue5_def string_of_int_5)
  have "id_row row5_string = ''recB''" by (simp add: row5_string_def)
  with last_row_wins [OF a b c] k k' show ?thesis by simp
qed

subsection \<open>Chunks and counts\<close>

lemma concat_chunkLoop:
  "concat (chunkLoop rows startIndex chunks) = concat chunks @ drop startIndex rows"
proof (induction rows startIndex chunks rule: chunkLoop.induct)
  case (1 rows startIndex chunks)
  show ?case
  proof (cases "startIndex < length rows")
    case True
    have "take 10 (drop startIndex rows) @ drop (startIndex + 10) rows = drop startIndex rows"
      by (metis add.commute append_take_drop_id drop_drop)
    with True "1.IH" show ?thesis
      by (simp add: chunkLoop.simps [of rows startIndex chunks] slice_def)
  next
    case False
    then show ?thesis
      by (simp add: chunkLoop.simps [of rows startIndex chunks])
  qed
qed

lemma set_chunkLoop:
  "c \<in> set (chunkLoop rows startIndex chunks)
     \<Longrightarrow> c \<in> set chunks \<or> (c \<noteq> [] \<and> length c \<le> 10)"
proof (induction rows startIndex chunks rule: chunkLoop.induct)
  case (1 rows startIndex chunks)
  show ?case
  proof (cases "startIndex < length rows")
    case True
    with "1.prems" have "c \<in> set (chunkLoop rows (startIndex + 10)
        (chunks @ [slice rows startIndex (startIndex + 10)]))"
      by (simp add: chunkLoop.simps [of rows startIndex chunks])
    from "1.IH" [OF True this]
    have "c \<in> set (chunks @ [slice rows startIndex (startIndex + 10)])
            \<or> (c \<noteq> [] \<and> length c \<le> 10)" .
    moreover have "slice rows startIndex (startIndex + 10) \<noteq> []"
      using True by (simp add: slice_def)
    moreover have "length (slice rows startIndex (startIndex + 10)) \<le> 10"
      by (simp add: slice_def)
    ultimately show ?thesis by auto
  next
    case False
    with "1.prems" show ?thesis
      by (simp add: chunkLoop.simps [of rows startIndex chunks])
  qed
qed

lemma concat_chunksOf10: "concat (chunksOf10 rows) = rows"
  by (simp add: chunksOf10_def concat_chunkLoop)

lemma chunksOf10_sizes:
  "c \<in> set (chunksOf10 rows) \<Longrightarrow> c \<noteq> [] \<and> length c \<le> 10"
  using set_chunkLoop [of c rows 0 "[]"] by (simp add: chunksOf10_def)

lemma foldl_count:
  "foldl (\<lambda>memo chunkResult. memo + length chunkResult) n results = n + length (concat results)"
  by (induction results arbitrary: n) simp_all

lemma countResults_eq: "countResults results = length (concat results)"
  by (simp add: countResults_def foldl_count)

lemma promiseAll_success:
  "\<forall>c \<in> set chunks. \<exists>written. send c = Inr written \<and> length written = length c
     \<Longrightarrow> \<exists>results. promiseAll (map send chunks) = Inr results
           \<and> length (concat results) = length (concat chunks)"
proof (induction chunks)
  case Nil
  show ?case by simp
next
  case (Cons c chunks)
  from Cons.prems obtain written where w: "send c = Inr written" "length written = length c"
    by auto
  from Cons.prems have "\<forall>c \<in> set chunks. \<exists>written. send c = Inr written \<and> length written = length c"
    by simp
  from Cons.IH [OF this] obtain results where
    r: "promiseAll (map send chunks) = Inr results" "length (concat results) = length (concat chunks)"
    by blast
  from w r show ?case by simp
qed

lemma writeChunks_success:
  assumes "\<forall>c \<in> set (chunksOf10 rows). \<exists>written. send c = Inr written \<and> length written = length c"
  shows "writeChunks send rows = Inr (length rows)"
proof -
  from promiseAll_success [OF assms] obtain results where
    r: "promiseAll (map send (chunksOf10 rows)) = Inr results"
       "length (concat results) = length (concat (chunksOf10 rows))"
    by blast
  then show ?thesis
    by (simp add: writeChunks_def countResults_eq concat_chunksOf10)
qed

lemma chunks_23:
  "length rows = 23 \<Longrightarrow> map length (chunksOf10 rows) = [10, 10, 3]"
  by (simp add: chunksOf10_def chunkLoop.simps [of _ 0] chunkLoop.simps [of _ 10]
        chunkLoop.simps [of _ 20] chunkLoop.simps [of _ 30] slice_def)

lemma promiseAll_results:
  "list_all2 (\<lambda>c written. send c = Inr written) chunks results
     \<Longrightarrow> promiseAll (map send chunks) = Inr results"
  by (induction chunks results rule: list_all2_induct) simp_all

lemma promiseAll_failure:
  "c \<in> set chunks \<Longrightarrow> send c = Inl e \<Longrightarrow> \<exists>e'. promiseAll (map send chunks) = Inl e'"
proof (induction chunks)
  case Nil
  then show ?case by simp
next
  case (Cons d chunks)
  show ?case
  proof (cases "send d")
    case (Inl e0)
    then show ?thesis by simp
  next
    case (Inr written)
    with Cons.prems have "c \<in> set chunks" by auto
    from Cons.IH [OF this Cons.prems(2)] obtain e' where "promiseAll (map send chunks) = Inl e'" ..
    with Inr show ?thesis by simp
  qed
qed

lemma writeChunks_results:
  "list_all2 (\<lambda>c written. send c = Inr written) (chunksOf10 rows) results
     \<Longrightarrow> writeChunks send rows = Inr (sum_list (map length results))"
  by (simp add: writeChunks_def promiseAll_results countResults_eq length_concat)

lemma writeChunks_failure:
  assumes "c \<in> set (chunksOf10 rows)" and "send c = Inl e"
  shows "\<exists>e'. writeChunks send rows = Inl e'"
proof -
  from promiseAll_failure [where send = send, OF assms] obtain e' where
    "promiseAll (map send (chunksOf10 rows)) = Inl e'" ..
  then show ?thesis by (simp add: writeChunks_def)
qed

lemma fields_newRows: "map fields_row (newRows newIssues) = map fieldsFromIssue newIssues"
  by (simp add: newRows_def)

lemma fields_allIssues: "map fields_row (allIssues issues) = map fieldsFromIssue issues"
  by (simp add: allIssues_def fieldsFromIssue_def)

text \<open>
  Claim C8. Every list of records handed to a writer is cut into consecutive chunks of at
  most ten records (none empty) that put together give the list back, and the table is
  called once on each of these chunks: the count reported is the sum of the numbers of
  records the calls return, and the operation fails when a call on one of the chunks fails.
  So when each chunk call succeeds, that is, returns as many records as it was sent, the
  count reported is the number of records handed in. This holds for the insert, whose
  records are the projections of the new issues, for the update and for the insert-only
  importer. Twenty-three issues to insert make three calls, of 10, 10 and 3 rows.
\<close>

theorem chunks_of_ten:
  "concat (chunksOf10 rows) = rows
   \<and> (\<forall>c \<in> set (chunksOf10 rows). c \<noteq> [] \<and> length c \<le> 10)
   \<and> map fields_row (newRows newIssues) = map fieldsFromIssue newIssues
   \<and> (\<forall>created.
         list_all2 (\<lambda>c written. create c = Inr written) (chunksOf10 (newRows newIssues)) created
         \<longrightarrow> insertNewRows create newIssues = Inr (sum_list (map length created)))
   \<and> (\<forall>c \<in> set (chunksOf10 (newRows newIssues)). \<forall>e.
         create c = Inl e \<longrightarrow> (\<exists>e'. insertNewRows create newIssues = Inl e'))
   \<and> ((\<forall>c \<in> set (chunksOf10 (newRows newIssues)).
          \<exists>written. create c = Inr written \<and> length written = length c)
        \<longrightarrow> insertNewRows create newIssues = Inr (length newIssues))
   \<and> (rowsToUpdate rowsByNumber matched = Inr changed
        \<longrightarrow> (\<forall>updated.
               list_all2 (\<lambda>c written. update c = Inr written) (chunksOf10 changed) updated
               \<longrightarrow> updateExistingRows update rowsByNumber matched
                     = Inr (sum_list (map length updated)))
            \<and> (\<forall>c \<in> set (chunksOf10 changed). \<forall>e.
                 update c = Inl e
                 \<longrightarrow> (\<exists>e'. updateExistingRows update rowsByNumber matched = Inl e'))
            \<and> ((\<forall>c \<in> set (chunksOf10 changed).
                  \<exists>written. update c = Inr written \<and> length written = length c)
                \<longrightarrow> updateExistingRows update rowsByNumber matched = Inr (length changed)))
   \<and> map fields_row (allIssues issues) = map fieldsFromIssue issues
   \<and> (\<forall>imported.
         list_all2 (\<lambda>c written. create c = Inr written) (chunksOf10 (allIssues issues)) imported
         \<longrightarrow> importAllIssues create issues = Some (sum_list (map length imported)))
   \<and> (\<forall>c \<in> set (chunksOf10 (allIssues issues)). \<forall>e.
         create c = Inl e \<longrightarrow> importAllIssues create issues = None)
   \<and> ((\<forall>c \<in> set (chunksOf10 (allIssues issues)).
          \<exists>written. create c = Inr written \<and> length written = length c)
        \<longrightarrow> importAllIssues create issues = Some (length issues))
   \<and> (length newIssues = 23
        \<longrightarrow> map length (chunksOf10 (newRows newIssues)) = [10, 10, 3])"
proof -
  have sizes: "\<forall>c \<in> set (chunksOf10 rows). c \<noteq> [] \<and> length c \<le> 10"
    using chunksOf10_sizes by blast
  have ins1: "insertNewRows create newIssues = Inr (sum_list (map length created))"
    if "list_all2 (\<lambda>c written. create c = Inr written) (chunksOf10 (newRows newIssues)) created"
    for created
    using writeChunks_results [OF that] by (simp add: insertNewRows_def)
  have ins2: "\<exists>e'. insertNewRows create newIssues = Inl e'"
    if "c \<in> set (chunksOf10 (newRows newIssues))" "create c = Inl e" for c e
    using writeChunks_failure [where send = create, OF that] by (simp add: insertNewRows_def)
  have ins3: "insertNewRows create newIssues = Inr (length newIssues)"
    if "\<forall>c \<in> set (chunksOf10 (newRows newIssues)).
          \<exists>written. create c = Inr written \<and> length written = length c"
    using writeChunks_success [OF that] by (simp add: insertNewRows_def newRows_def)
  have upd1: "updateExistingRows update rowsByNumber matched
              = Inr (sum_list (map length updated))"
    if "rowsToUpdate rowsByNumber matched = Inr changed"
      and "list_all2 (\<lambda>c written. update c = Inr written) (chunksOf10 changed) updated"
    for updated
    using writeChunks_results [OF that(2)] that(1) by (simp add: updateExistingRows_def)
  have upd2: "\<exists>e'. updateExistingRows update rowsByNumber matched = Inl e'"
    if "rowsToUpdate rowsByNumber matched = Inr changed"
      and "c \<in> set (chunksOf10 changed)" "update c = Inl e" for c e
    using writeChunks_failure [where send = update, OF that(2,3)] that(1)
    by (simp add: updateExistingRows_def)
  have upd3: "updateExistingRows update rowsByNumber matched = Inr (length changed)"
    if "rowsToUpdate rowsByNumber matched = Inr changed"
      and "\<forall>c \<in> set (chunksOf10 changed).
          \<exists>written. update c = Inr written \<and> length written = length c"
    using writeChunks_success [OF that(2)] that(1) by (simp add: updateExistingRows_def)
  have all1: "importAllIssues create issues = Some (sum_list (map length imported))"
    if "list_all2 (\<lambda>c written. create c = Inr written) (chunksOf10 (allIssues issues)) imported"
    for imported
    using writeChunks_results [OF that] by (simp add: importAllIssues_def)
  have all2: "importAllIssues create issues = None"
    if "c \<in> set (chunksOf10 (allIssues issues))" "create c = Inl e" for c e
    using writeChunks_failure [where send = create, OF that] by (auto simp: importAllIssues_def)
  have all3: "importAllIssues create issues = Some (length issues)"
    if "\<forall>c \<in> set (chunksOf10 (allIssues issues)).
          \<exists>written. create c = Inr written \<and> length written = length c"
    using writeChunks_success [OF that] by (simp add: importAllIssues_def allIssues_def)
  have n23: "map length (chunksOf10 (newRows newIssues)) = [10, 10, 3]"
    if "length newIssues = 23"
    using that by (intro chunks_23) (simp add: newRows_def)
  have insert_part: "(\<forall>created.
         list_all2 (\<lambda>c written. create c = Inr written) (chunksOf10 (newRows newIssues)) created
         \<longrightarrow> insertNewRows create newIssues = Inr (sum_list (map length created)))
   \<and> (\<forall>c \<in> set (chunksOf10 (newRows newIssues)). \<forall>e.
         create c = Inl e \<longrightarrow> (\<exists>e'. insertNewRows create newIssues = Inl e'))
   \<and> ((\<forall>c \<in> set (chunksOf10 (newRows newIssues)).
          \<exists>written. create c = Inr written \<and> length written = length c)
        \<longrightarrow> insertNewRows create newIssues = Inr (length newIssues))"
    using ins1 ins2 ins3 by blast
  have update_part: "rowsToUpdate rowsByNumber matched = Inr changed
        \<longrightarrow> (\<forall>updated.
               list_all2 (\<lambda>c written. update c = Inr written) (chunksOf10 changed) updated
               \<longrightarrow> updateExistingRows update rowsByNumber matched
                     = Inr (sum_list (map length updated)))
            \<and> (\<forall>c \<in> set (chunksOf10 changed). \<forall>e.
                 update c = Inl e
                 \<longrightarrow> (\<exists>e'. updateExistingRows update rowsByNumber matched = Inl e'))
            \<and> ((\<forall>c \<in> set (chunksOf10 changed).
                  \<exists>written. update c = Inr written \<and> length written = length c)
                \<longrightarrow> updateExistingRows update rowsByNumber matched = Inr (length changed))"
    using upd1 upd2 upd3 by blast
  have all_part: "(\<forall>imported.
         list_all2 (\<lambda>c written. create c = Inr written) (chunksOf10 (allIssues issues)) imported
         \<longrightarrow> importAllIssues create issues = Some (sum_list (map length imported)))
   \<and> (\<forall>c \<in> set (chunksOf10 (allIssues issues)). \<forall>e.
         create c = Inl e \<longrightarrow> importAllIssues create issues = None)
   \<and> ((\<forall>c \<in> set (chunksOf10 (allIssues issues)).
          \<exists>written. create c = Inr written \<and> length written = length c)
        \<longrightarrow> importAllIssues create issues = Some (length issues))"
    using all1 all2 all3 by blast
  from concat_chunksOf10 [of rows] sizes fields_newRows [of newIssues] insert_part
    update_part fields_allIssues [of issues] all_part n23
  show ?thesis by blast
qed

theorem chunks_of_ten_witness:
  "map length (chunksOf10 (newRows (replicate 23 issue1))) = [10, 10, 3]
   \<and> insertNewRows writeAll (replicate 23 issue1) = Inr 23
   \<and> insertNewRows writeFirst (replicate 23 issue1) = Inr 3
   \<and> insertNewRows rejectAll (replicate 23 issue1) = Inl DestinationError
   \<and> rowsToUpdate (issueNumbersToExistingRows [row5_string]) [issue5]
         = Inr [\<lparr>fields_row = fieldsFromIssue issue5, id_row = ''recB''\<rparr>]
   \<and> updateExistingRows writeAll (issueNumbersToExistingRows [row5_string]) [issue5] = Inr 1
   \<and> updateExistingRows rejectAll (issueNumbersToExistingRows [row5_string]) [issue5]
         = Inl DestinationError
   \<and> importAllIssues writeAll (replicate 23 issue1) = Some 23
   \<and> importAllIssues rejectAll (replicate 23 issue1) = None"
proof -
  let ?issues = "replicate 23 issue1"
  let ?m = "issueNumbersToExistingRows [row5_string]"
  let ?changed = "[\<lparr>fields_row = fieldsFromIssue issue5, id_row = ''recB''\<rparr>]"
  have n: "length ?issues = 23" by simp
  have all: "\<forall>c \<in> set cs. \<exists>written. writeAll c = Inr written \<and> length written = length c"
    for cs :: "'z new_row_scheme list list"
    by (simp add: writeAll_def)
  have first: "list_all2 (\<lambda>c written. writeFirst c = Inr written) cs
      (map (\<lambda>c. take 1 (map fields_row c)) cs)"
    for cs :: "'z new_row_scheme list list"
    by (simp add: list_all2_map2 list_all2_same writeFirst_def)
  have three: "sum_list (map length (map (\<lambda>c. take 1 (map fields_row c))
      (chunksOf10 (newRows ?issues)))) = 3"
    by code_simp
  have r: "rowsToUpdate ?m [issue5] = Inr ?changed"
    by code_simp
  have cn: "take 10 (newRows ?issues) \<in> set (chunksOf10 (newRows ?issues))"
    by code_simp
  have ca: "take 10 (allIssues ?issues) \<in> set (chunksOf10 (allIssues ?issues))"
    by code_simp
  have cu: "?changed \<in> set (chunksOf10 ?changed)"
    by code_simp
  have rej: "rejectAll c = Inl DestinationError" for c :: "'z new_row_scheme list"
    by (simp add: rejectAll_def)
  note ok = chunks_of_ten [where rows = "newRows ?issues" and newIssues = "?issues"
      and create = writeAll and rowsByNumber = "?m" and matched = "[issue5]"
      and changed = "?changed" and update = writeAll and issues = "?issues"]
  note part = chunks_of_ten [where rows = "newRows ?issues" and newIssues = "?issues"
      and create = writeFirst and rowsByNumber = "?m" and matched = "[issue5]"
      and changed = "?changed" and update = writeFirst and issues = "?issues"]
  note bad = chunks_of_ten [where rows = "newRows ?issues" and newIssues = "?issues"
      and create = rejectAll and rowsByNumber = "?m" and matched = "[issue5]"
      and changed = "?changed" and update = rejectAll and issues = "?issues"]
  have a1: "map length (chunksOf10 (newRows ?issues)) = [10, 10, 3]"
    using ok n by blast
  have "insertNewRows writeAll ?issues = Inr (length ?issues)"
    using ok all [of "chunksOf10 (newRows ?issues)"] by blast
  then have a2: "insertNewRows writeAll ?issues = Inr 23" by simp
  have "insertNewRows writeFirst ?issues = Inr (sum_list (map length
      (map (\<lambda>c. take 1 (map fields_row c)) (chunksOf10 (newRows ?issues)))))"
    using part first [of "chunksOf10 (newRows ?issues)"] by blast
  then have a3: "insertNewRows writeFirst ?issues = Inr 3"
    by (simp only: three)
  have "\<exists>e'. insertNewRows rejectAll ?issues = Inl e'"
    using bad cn rej [of "take 10 (newRows ?issues)"] by blast
  moreover have "insertNewRows rejectAll ?issues \<noteq> Inl TypeError"
    by code_simp
  ultimately have a4: "insertNewRows rejectAll ?issues = Inl DestinationError"
    by (metis error.exhaust)
  have "updateExistingRows writeAll ?m [issue5] = Inr (length ?changed)"
    using ok r all [of "chunksOf10 ?changed"] by blast
  then have a5: "updateExistingRows writeAll ?m [issue5] = Inr 1" by simp
  have "\<exists>e'. updateExistingRows rejectAll ?m [issue5] = Inl e'"
    using bad r cu rej [of ?changed] by blast
  moreover have "updateExistingRows rejectAll ?m [issue5] \<noteq> Inl TypeError"
    by code_simp
  ultimately have a6: "updateExistingRows rejectAll ?m [issue5] = Inl DestinationError"
    by (metis error.exhaust)
  have "importAllIssues writeAll ?issues = Some (length ?issues)"
    using ok all [of "chunksOf10 (allIssues ?issues)"] by blast
  then have a7: "importAllIssues writeAll ?issues = Some 23" by simp
  have a8: "importAllIssues rejectAll ?issues = None"
    using bad ca rej [of "take 10 (allIssues ?issues)"] by blast
  from a1 a2 a3 a4 r a5 a6 a7 a8 show ?thesis by blast
qed

subsection \<open>The projection without its timestamps\<close>

lemma withoutTimestamps_fieldsFromIssue:
  "withoutTimestamps (fieldsFromIssue i) =
     [(''Issue Number'', JNum (int (number i))),
      (''Name'', JStr (title i)),
      (''Description'', (case body i of None \<Rightarrow> JNull | Some b \<Rightarrow> JStr b)),
      (''Github URL'', JStr (html_url i)),
      (''Labels'', JStr (join_comma (map name (labels i)))),
      (''Status'', JStr (state i))]
     @ (case assignee i of
          None \<Rightarrow> []
        | Some a \<Rightarrow> [(''Assigned to'', JStr (CHR ''@'' # login a))])"
  by (simp add: withoutTimestamps_def fieldsFromIssue_def split: option.split)

lemma withoutTimestamps_timestamps:
  "withoutTimestamps (fieldsFromIssue (i\<lparr>created_at := c, updated_at := u\<rparr>))
     = withoutTimestamps (fieldsFromIssue i)"
  by (simp add: withoutTimestamps_fieldsFromIssue)

lemma distinct_projected_keys:
  "distinct (map fst (withoutTimestamps (fieldsFromIssue i)))"
  by (simp add: withoutTimestamps_fieldsFromIssue split: option.split)

lemma getField_distinct:
  "distinct (map fst obj) \<Longrightarrow> (key, v) \<in> set obj \<Longrightarrow> getField obj key = v"
  by (simp add: getField_def)

lemma getField_projected:
  "(key, v) \<in> set (withoutTimestamps (fieldsFromIssue i))
     \<Longrightarrow> getField (withoutTimestamps (fieldsFromIssue i)) key = v"
  using distinct_projected_keys by (rule getField_distinct)

lemma projected_all_primitive:
  "list_all (\<lambda>(key, v). \<not> isReference v) (withoutTimestamps (fieldsFromIssue i))"
  by (simp add: withoutTimestamps_fieldsFromIssue split: option.split)

lemma projected_primitive:
  "(key, v) \<in> set (withoutTimestamps (fieldsFromIssue i)) \<Longrightarrow> \<not> isReference v"
  using projected_all_primitive [of i] unfolding list_all_iff by blast

lemma projected_all_string:
  "list_all (\<lambda>(key, v). key = ''Issue Number'' \<or> key = ''Description'' \<or> (\<exists>s. v = JStr s))
     (withoutTimestamps (fieldsFromIssue i))"
  by (simp add: withoutTimestamps_fieldsFromIssue split: option.split)

lemma projected_string:
  "(key, v) \<in> set (withoutTimestamps (fieldsFromIssue i))
     \<Longrightarrow> key \<noteq> ''Issue Number'' \<Longrightarrow> key \<noteq> ''Description'' \<Longrightarrow> \<exists>s. v = JStr s"
  using projected_all_string [of i] unfolding list_all_iff by blast

lemma getField_Labels:
  "getField (withoutTimestamps (fieldsFromIssue i)) ''Labels''
     = JStr (join_comma (map name (labels i)))"
  by (simp add: withoutTimestamps_fieldsFromIssue getField_def)

subsection \<open>Comparing one field\<close>

lemma compareField_scalar:
  "\<not> instanceofArray (getField existingFields key)
     \<Longrightarrow> compareField existingFields newFields key
           = (if strictNotEqual (orUndefined (getField existingFields key))
                   (orUndefined (getField newFields key))
              then Inr (Return True) else Inr Continue)"
  by (cases "getField existingFields key") (simp_all add: compareField_def)

lemma compareField_array:
  "getField existingFields key = JArr stored
     \<Longrightarrow> compareField existingFields newFields key
           = compareArray stored (getField newFields key)"
  by (simp add: compareField_def)

lemma orUndefined_eq_iff:
  "orUndefined a = orUndefined b \<longleftrightarrow> (\<not> truthy a \<and> \<not> truthy b) \<or> a = b"
  by (cases "truthy a"; cases "truthy b") (auto simp: orUndefined_def)

lemma isReference_orUndefined: "isReference (orUndefined v) = isReference v"
  by (cases v) (simp_all add: orUndefined_def)

lemma strictNotEqual_primitive:
  assumes "\<not> isReference b"
  shows "strictNotEqual (orUndefined a) (orUndefined b) \<longleftrightarrow> orUndefined a \<noteq> orUndefined b"
proof (cases "isReference a")
  case True
  then have "isReference (orUndefined a)" by (simp add: isReference_orUndefined)
  moreover from assms have "\<not> isReference (orUndefined b)" by (simp add: isReference_orUndefined)
  ultimately show ?thesis by (auto simp: strictNotEqual_def)
next
  case False
  with assms show ?thesis by (simp add: strictNotEqual_def isReference_orUndefined)
qed

lemma instanceofArray_reference: "instanceofArray v \<Longrightarrow> isReference v"
  by (cases v) simp_all

text \<open>
  Claim C7. For a projected field whose stored value is not an array (\<open>Assigned to\<close> and
  \<open>Status\<close> among them), the comparison declares a difference exactly when the stored and
  the projected value differ once each missing or empty value (undefined, null, the empty
  string, and the other falsy values 0 and false) is replaced by undefined; otherwise the
  loop goes on to the next field. So the two sides are equal when both are missing or empty,
  or when they are the same value: an absent stored field equals a projected empty string,
  and a stored empty string equals a projected null.
\<close>

theorem scalar_field_comparison:
  assumes "(key, v) \<in> set (withoutTimestamps (fieldsFromIssue i))"
    and "\<not> instanceofArray (getField existingFields key)"
  shows "compareField existingFields (withoutTimestamps (fieldsFromIssue i)) key
           = (if orUndefined (getField existingFields key) \<noteq> orUndefined v
              then Inr (Return True) else Inr Continue)
     \<and> ((orUndefined (getField existingFields key) = orUndefined v)
          = ((\<not> truthy (getField existingFields key) \<and> \<not> truthy v)
               \<or> getField existingFields key = v))
     \<and> (map_of existingFields key = None \<and> v = JStr []
          \<longrightarrow> compareField existingFields (withoutTimestamps (fieldsFromIssue i)) key
                = Inr Continue)
     \<and> (getField existingFields key = JStr [] \<and> v = JNull
          \<longrightarrow> compareField existingFields (withoutTimestamps (fieldsFromIssue i)) key
                = Inr Continue)"
proof -
  have v: "getField (withoutTimestamps (fieldsFromIssue i)) key = v"
    using assms(1) by (rule getField_projected)
  have "\<not> isReference v"
    using assms(1) by (rule projected_primitive)
  then have cmp: "compareField existingFields (withoutTimestamps (fieldsFromIssue i)) key
           = (if orUndefined (getField existingFields key) \<noteq> orUndefined v
              then Inr (Return True) else Inr Continue)"
    using assms(2) by (simp add: compareField_scalar v strictNotEqual_primitive)
  have absent: "orUndefined (getField existingFields key) = orUndefined v"
    if "map_of existingFields key = None" "v = JStr []"
    using that by (simp add: getField_def orUndefined_def)
  have empty: "orUndefined (getField existingFields key) = orUndefined v"
    if "getField existingFields key = JStr []" "v = JNull"
    using that by (simp add: orUndefined_def)
  have c3: "map_of existingFields key = None \<and> v = JStr []
          \<longrightarrow> compareField existingFields (withoutTimestamps (fieldsFromIssue i)) key
                = Inr Continue"
    using absent by (simp add: cmp)
  have c4: "getField existingFields key = JStr [] \<and> v = JNull
          \<longrightarrow> compareField existingFields (withoutTimestamps (fieldsFromIssue i)) key
                = Inr Continue"
    using empty by (simp add: cmp)
  from cmp orUndefined_eq_iff [of "getField existingFields key" v] c3 c4
  show ?thesis by blast
qed

theorem scalar_field_comparison_witness:
  "(''Labels'', JStr []) \<in> set (withoutTimestamps (fieldsFromIssue issue2))
   \<and> \<not> instanceofArray (getField [(''Issue Number'', JNum 2)] ''Labels'')
   \<and> map_of [(''Issue Number'', JNum 2)] ''Labels'' = None
   \<and> compareField [(''Issue Number'', JNum 2)] (withoutTimestamps (fieldsFromIssue issue2))
         ''Labels'' = Inr Continue
   \<and> (''Status'', JStr ''closed'') \<in> set (withoutTimestamps (fieldsFromIssue issue2))
   \<and> \<not> instanceofArray (getField [(''Status'', JStr ''open'')] ''Status'')
   \<and> compareField [(''Status'', JStr ''open'')] (withoutTimestamps (fieldsFromIssue issue2))
         ''Status'' = Inr (Return True)"
proof -
  have a: "(''Labels'', JStr []) \<in> set (withoutTimestamps (fieldsFromIssue issue2))"
    by (simp add: withoutTimestamps_fieldsFromIssue issue2_def)
  have b: "\<not> instanceofArray (getField [(''Issue Number'', JNum 2)] ''Labels'')"
    by (simp add: getField_def)
  have c: "(''Status'', JStr ''closed'') \<in> set (withoutTimestamps (fieldsFromIssue issue2))"
    by (simp add: withoutTimestamps_fieldsFromIssue issue2_def)
  have d: "\<not> instanceofArray (getField [(''Status'', JStr ''open'')] ''Status'')"
    by (simp add: getField_def)
  from scalar_field_comparison [OF a b] scalar_field_comparison [OF c d] a b c d
  show ?thesis by (simp add: getField_def orUndefined_def)
qed

subsection \<open>The loop over the fields\<close>

lemma compareField_identical:
  assumes "getField existingFields key = getField newFields key"
    and "\<not> isReference (getField newFields key)"
  shows "compareField existingFields newFields key = Inr Continue"
proof -
  from assms have "\<not> instanceofArray (getField existingFields key)"
    using instanceofArray_reference by auto
  then show ?thesis
    using assms by (simp add: compareField_scalar strictNotEqual_primitive)
qed

lemma compareKeys_all_Continue:
  "\<forall>key \<in> set keys. compareField existingFields newFields key = Inr Continue
     \<Longrightarrow> compareKeys existingFields newFields keys = Inr False"
  by (induction keys) simp_all

lemma compareKeys_True:
  "compareKeys existingFields newFields keys = Inr True
     \<Longrightarrow> \<exists>key \<in> set keys. compareField existingFields newFields key = Inr (Return True)"
proof (induction keys)
  case Nil
  then show ?case by simp
next
  case (Cons key keys)
  show ?case
  proof (cases "compareField existingFields newFields key")
    case (Inl e)
    with Cons.prems show ?thesis by simp
  next
    case (Inr st)
    show ?thesis
    proof (cases st)
      case (Return b)
      with Inr Cons.prems show ?thesis by simp
    next
      case Continue
      with Inr Cons.prems have "compareKeys existingFields newFields keys = Inr True" by simp
      from Cons.IH [OF this] show ?thesis by auto
    qed
  qed
qed

lemma filterThrowing_Inr:
  "filterThrowing p xs = Inr ys \<Longrightarrow> ys = filter (\<lambda>x. p x = Inr True) xs"
proof (induction xs arbitrary: ys)
  case Nil
  then show ?case by simp
next
  case (Cons x xs)
  from Cons.prems obtain keep where k: "p x = Inr keep"
    by (cases "p x") simp_all
  with Cons.prems obtain zs where z: "filterThrowing p xs = Inr zs"
    by (cases "filterThrowing p xs") simp_all
  from Cons.IH [OF z] k z Cons.prems show ?case
    by (cases keep) auto
qed

lemma filterThrowing_total:
  "\<forall>x \<in> set xs. \<exists>b. p x = Inr b
     \<Longrightarrow> filterThrowing p xs = Inr (filter (\<lambda>x. p x = Inr True) xs)"
proof (induction xs)
  case Nil
  show ?case by simp
next
  case (Cons x xs)
  from Cons.prems obtain b where b: "p x = Inr b" by auto
  from Cons.prems have "filterThrowing p xs = Inr (filter (\<lambda>x. p x = Inr True) xs)"
    by (intro Cons.IH) simp
  with b show ?case by (cases b) simp_all
qed

lemma lookupRow_timestamps:
  "lookupRow rowsByNumber (i\<lparr>created_at := c, updated_at := u\<rparr>) = lookupRow rowsByNumber i"
  by (simp add: lookupRow_def)

text \<open>
  Claim C3. When every projected field other than \<open>Created At\<close> and \<open>Updated At\<close> is
  identical to what the matched row stores, the issue is not classified for update, whatever
  its two timestamps are and whatever the row stores for them: the timestamps are taken out
  of the projection before the comparison.
\<close>

theorem timestamps_never_trigger:
  assumes "lookupRow rowsByNumber i = Some row"
    and "\<forall>(key, v) \<in> set (withoutTimestamps (fieldsFromIssue i)).
           getField (fields_row row) key = v"
  shows "needsUpdate rowsByNumber (i\<lparr>created_at := c, updated_at := u\<rparr>) = Inr False
     \<and> (\<forall>changed. changedIssues rowsByNumber matched = Inr changed
           \<longrightarrow> i\<lparr>created_at := c, updated_at := u\<rparr> \<notin> set changed)"
proof -
  let ?new = "withoutTimestamps (fieldsFromIssue i)"
  have "compareField (fields_row row) ?new key = Inr Continue" if "key \<in> set (map fst ?new)" for key
  proof -
    from that obtain v where v: "(key, v) \<in> set ?new" by auto
    then have "getField ?new key = v" by (rule getField_projected)
    moreover from v assms(2) have "getField (fields_row row) key = v" by auto
    moreover from v have "\<not> isReference v" by (rule projected_primitive)
    ultimately show ?thesis by (simp add: compareField_identical)
  qed
  then have "compareKeys (fields_row row) ?new (map fst ?new) = Inr False"
    by (intro compareKeys_all_Continue) blast
  with assms(1) have n: "needsUpdate rowsByNumber (i\<lparr>created_at := c, updated_at := u\<rparr>) = Inr False"
    by (simp add: needsUpdate_def lookupRow_timestamps withoutTimestamps_timestamps)
  have "i\<lparr>created_at := c, updated_at := u\<rparr> \<notin> set changed"
    if "changedIssues rowsByNumber matched = Inr changed" for changed
    using filterThrowing_Inr [OF that [unfolded changedIssues_def]] n by simp
  with n show ?thesis by blast
qed

theorem timestamps_never_trigger_witness:
  "lookupRow (issueNumbersToExistingRows [row2_same]) issue2 = Some row2_same
   \<and> getField (fields_row row2_same) ''Updated At'' \<noteq> JStr ''2021-03-03T00:00:00Z''
   \<and> needsUpdate (issueNumbersToExistingRows [row2_same])
         (issue2\<lparr>created_at := ''2021-02-02T00:00:00Z'', updated_at := ''2021-03-03T00:00:00Z''\<rparr>)
       = Inr False
   \<and> changedIssues (issueNumbersToExistingRows [row2_same]) [issue2] = Inr []"
proof -
  have a: "lookupRow (issueNumbersToExistingRows [row2_same]) issue2 = Some row2_same"
    by code_simp
  have b: "\<forall>(key, v) \<in> set (withoutTimestamps (fieldsFromIssue issue2)).
           getField (fields_row row2_same) key = v"
    by (simp add: withoutTimestamps_fieldsFromIssue issue2_def row2_same_def getField_def)
  have c: "changedIssues (issueNumbersToExistingRows [row2_same]) [issue2] = Inr []"
    by code_simp
  have d: "getField (fields_row row2_same) ''Updated At'' \<noteq> JStr ''2021-03-03T00:00:00Z''"
    by (simp add: row2_same_def getField_def)
  from timestamps_never_trigger [OF a b, where c = "''2021-02-02T00:00:00Z''"
      and u = "''2021-03-03T00:00:00Z''" and matched = "[issue2]"] a c d
  show ?thesis by simp
qed

subsection \<open>Comparing an array cell\<close>

lemma valueMissing_iff:
  "valueMissing existingValues values \<longleftrightarrow> (\<exists>t \<in> set values. JStr t \<notin> set existingValues)"
  by (induction "values") simp_all

lemma newArrValues_empty: "newArrValues [] = []"
  by (simp add: newArrValues_def)

lemma compareArray_string:
  "compareArray stored (JStr s)
     = Inr (Return ((existingArrValues stored \<noteq> [] \<and> newArrValues s = [])
         \<or> length (existingArrValues stored) \<noteq> length (newArrValues s)
         \<or> (\<exists>t \<in> set (newArrValues s). JStr t \<notin> set (existingArrValues stored))))"
proof (cases "s = []")
  case True
  then show ?thesis
    by (cases "existingArrValues stored")
      (simp_all add: compareArray_def newArrValues_empty valueMissing_iff)
next
  case False
  then show ?thesis
    by (auto simp: compareArray_def valueMissing_iff)
qed

lemma same_set_no_difference:
  assumes "distinct existing" and "distinct new" and "set existing = JStr ` set new"
  shows "\<not> ((existing \<noteq> [] \<and> new = []) \<or> length existing \<noteq> length new
            \<or> (\<exists>t \<in> set new. JStr t \<notin> set existing))"
proof -
  have "inj_on JStr (set new)" by (simp add: inj_on_def)
  then have "card (JStr ` set new) = card (set new)" by (rule card_image)
  with assms have "length existing = length new"
    by (metis distinct_card)
  moreover from assms(3) have "\<forall>t \<in> set new. JStr t \<in> set existing" by auto
  ultimately show ?thesis by auto
qed

text \<open>
  Claim C2, as the code has it. For a matched issue and a row whose \<open>Labels\<close> cell is an
  array: when the truthy stored entries and the non-empty comma-separated pieces of the
  projected \<open>Labels\<close> string are each free of repetitions and equal as sets, the comparison
  reports no difference, in whatever order either side lists them. A difference is reported
  exactly when the stored side has an entry while the projected side has no piece, or the
  two lists differ in length (repetitions counted), or some piece is absent from the stored
  entries.
\<close>

theorem labels_set_comparison:
  assumes "getField (fields_row row) ''Labels'' = JArr stored"
  shows "compareField (fields_row row) (withoutTimestamps (fieldsFromIssue i)) ''Labels''
       = Inr (Return
           ((existingArrValues stored \<noteq> []
               \<and> newArrValues (join_comma (map name (labels i))) = [])
            \<or> length (existingArrValues stored)
                 \<noteq> length (newArrValues (join_comma (map name (labels i))))
            \<or> (\<exists>t \<in> set (newArrValues (join_comma (map name (labels i)))).
                  JStr t \<notin> set (existingArrValues stored))))
     \<and> (distinct (existingArrValues stored)
          \<and> distinct (newArrValues (join_comma (map name (labels i))))
          \<and> set (existingArrValues stored)
                = JStr ` set (newArrValues (join_comma (map name (labels i))))
        \<longrightarrow> compareField (fields_row row) (withoutTimestamps (fieldsFromIssue i)) ''Labels''
              = Inr (Return False))"
proof -
  let ?new = "newArrValues (join_comma (map name (labels i)))"
  have cmp: "compareField (fields_row row) (withoutTimestamps (fieldsFromIssue i)) ''Labels''
       = Inr (Return ((existingArrValues stored \<noteq> [] \<and> ?new = [])
            \<or> length (existingArrValues stored) \<noteq> length ?new
            \<or> (\<exists>t \<in> set ?new. JStr t \<notin> set (existingArrValues stored))))"
    using assms by (simp only: compareField_array getField_Labels compareArray_string)
  moreover have "compareField (fields_row row) (withoutTimestamps (fieldsFromIssue i)) ''Labels''
              = Inr (Return False)"
    if "distinct (existingArrValues stored)" "distinct ?new"
      "set (existingArrValues stored) = JStr ` set ?new"
    using same_set_no_difference [OF that] by (simp only: cmp)
  ultimately show ?thesis by blast
qed

theorem labels_set_comparison_witness:
  "getField (fields_row row5) ''Labels'' = JArr [JStr ''bug'', JStr ''ui'']
   \<and> newArrValues (join_comma (map name (labels issue5))) = [''ui'', ''bug'']
   \<and> existingArrValues [JStr ''bug'', JStr ''ui''] = [JStr ''bug'', JStr ''ui'']
   \<and> compareField (fields_row row5) (withoutTimestamps (fieldsFromIssue issue5)) ''Labels''
       = Inr (Return False)"
proof -
  have a: "getField (fields_row row5) ''Labels'' = JArr [JStr ''bug'', JStr ''ui'']"
    by (simp add: row5_def getField_def)
  have n: "newArrValues (join_comma (map name (labels issue5))) = [''ui'', ''bug'']"
    by (simp add: issue5_def newArrValues_def)
  have e: "existingArrValues [JStr ''bug'', JStr ''ui''] = [JStr ''bug'', JStr ''ui'']"
    by (simp add: existingArrValues_def)
  have d: "distinct (existingArrValues [JStr ''bug'', JStr ''ui''])
      \<and> distinct (newArrValues (join_comma (map name (labels issue5))))
      \<and> set (existingArrValues [JStr ''bug'', JStr ''ui''])
           = JStr ` set (newArrValues (join_comma (map name (labels issue5))))"
    unfolding n e by auto
  from labels_set_comparison [OF a, of issue5] d a n e
  show ?thesis by blast
qed

text \<open>
  The claim as written fails on a repeated entry: the stored labels \<open>bug, bug\<close> and the
  projected label \<open>bug\<close> are the same set, and the comparison reports a difference, the
  lists being of different lengths.
\<close>

theorem labels_repeated_entry_differs:
  "lookupRow (issueNumbersToExistingRows [row1_dup]) issue1 = Some row1_dup
   \<and> getField (fields_row row1_dup) ''Labels'' = JArr [JStr ''bug'', JStr ''bug'']
   \<and> set (existingArrValues [JStr ''bug'', JStr ''bug''])
       = set (map JStr (newArrValues (join_comma (map name (labels issue1)))))
   \<and> compareField (fields_row row1_dup) (withoutTimestamps (fieldsFromIssue issue1)) ''Labels''
       = Inr (Return True)"
proof -
  have "lookupRow (issueNumbersToExistingRows [row1_dup]) issue1 = Some row1_dup"
    by code_simp
  moreover have "getField (fields_row row1_dup) ''Labels'' = JArr [JStr ''bug'', JStr ''bug'']"
    by (simp add: row1_dup_def getField_def)
  moreover have "set (existingArrValues [JStr ''bug'', JStr ''bug''])
       = set (map JStr (newArrValues (join_comma (map name (labels issue1)))))"
    by (simp add: existingArrValues_def newArrValues_def issue1_def)
  moreover have "compareField (fields_row row1_dup) (withoutTimestamps (fieldsFromIssue issue1))
       ''Labels'' = Inr (Return True)"
    by code_simp
  ultimately show ?thesis by blast
qed

text \<open>
  Claim C1 on issue #5 and its row. The issue was closed since the row was written, so
  \<open>Status\<close> differs under the rule for fields that are not arrays. But \<open>Labels\<close> comes
  before \<open>Status\<close> in the loop and is stored as an array holding the same labels: the array
  branch returns false from the callback there, \<open>Status\<close> is never compared, and the issue
  is not sent for update.
\<close>

theorem status_change_behind_array_missed:
  "lookupRow (issueNumbersToExistingRows [row5]) issue5 = Some row5
   \<and> compareField (fields_row row5) (withoutTimestamps (fieldsFromIssue issue5)) ''Labels''
       = Inr (Return False)
   \<and> compareField (fields_row row5) (withoutTimestamps (fieldsFromIssue issue5)) ''Status''
       = Inr (Return True)
   \<and> needsUpdate (issueNumbersToExistingRows [row5]) issue5 = Inr False
   \<and> toUpdate [issue5] [row5] = Inr []"
  by code_simp

subsection \<open>The two lists\<close>

lemma compareArray_no_throw: "\<exists>st. compareArray stored (JStr s) = Inr st"
  by (simp add: compareArray_string)

lemma compareField_no_throw:
  assumes "instanceofArray (getField existingFields key) \<Longrightarrow> \<exists>s. getField newFields key = JStr s"
  shows "\<exists>st. compareField existingFields newFields key = Inr st"
proof (cases "instanceofArray (getField existingFields key)")
  case True
  then obtain stored where st: "getField existingFields key = JArr stored"
    by (cases "getField existingFields key") simp_all
  from assms [OF True] obtain s where "getField newFields key = JStr s" ..
  with st show ?thesis
    by (simp add: compareField_array compareArray_string)
next
  case False
  then show ?thesis by (auto simp: compareField_scalar)
qed

lemma compareKeys_total:
  "\<forall>key \<in> set keys. instanceofArray (getField existingFields key)
        \<longrightarrow> (\<exists>s. getField newFields key = JStr s)
     \<Longrightarrow> \<exists>b. compareKeys existingFields newFields keys = Inr b"
proof (induction keys)
  case Nil
  show ?case by auto
next
  case (Cons key keys)
  from Cons.prems obtain st where st: "compareField existingFields newFields key = Inr st"
    using compareField_no_throw [of existingFields key newFields] by auto
  from Cons.prems have "\<exists>b. compareKeys existingFields newFields keys = Inr b"
    by (intro Cons.IH) simp
  then obtain b where "compareKeys existingFields newFields keys = Inr b" ..
  with st show ?case by (cases st) simp_all
qed

lemma needsUpdate_total:
  assumes "lookupRow rowsByNumber i = Some row"
    and "\<not> instanceofArray (getField (fields_row row) ''Issue Number'')"
    and "\<not> instanceofArray (getField (fields_row row) ''Description'')"
  shows "\<exists>b. needsUpdate rowsByNumber i = Inr b"
proof -
  let ?new = "withoutTimestamps (fieldsFromIssue i)"
  have "\<exists>s. getField ?new key = JStr s"
    if "key \<in> set (map fst ?new)" "instanceofArray (getField (fields_row row) key)" for key
  proof -
    from that(1) obtain v where v: "(key, v) \<in> set ?new" by auto
    from that(2) assms(2,3) have "key \<noteq> ''Issue Number''" "key \<noteq> ''Description''" by auto
    with v have "\<exists>s. v = JStr s" by (rule projected_string)
    with getField_projected [OF v] show ?thesis by simp
  qed
  then have "\<exists>b. compareKeys (fields_row row) ?new (map fst ?new) = Inr b"
    by (intro compareKeys_total) blast
  with assms(1) show ?thesis by (simp add: needsUpdate_def Let_def)
qed

lemma needsUpdate_True:
  assumes "needsUpdate rowsByNumber i = Inr True"
  shows "\<exists>row. lookupRow rowsByNumber i = Some row
     \<and> (\<exists>key \<in> set (map fst (withoutTimestamps (fieldsFromIssue i))).
           compareField (fields_row row) (withoutTimestamps (fieldsFromIssue i)) key
             = Inr (Return True))"
proof (cases "lookupRow rowsByNumber i")
  case None
  with assms show ?thesis by (simp add: needsUpdate_def)
next
  case (Some row)
  with assms have "compareKeys (fields_row row) (withoutTimestamps (fieldsFromIssue i))
      (map fst (withoutTimestamps (fieldsFromIssue i))) = Inr True"
    by (simp add: needsUpdate_def Let_def)
  from compareKeys_True [OF this] Some show ?thesis by simp
qed

lemma mapThrowing_total:
  "\<forall>x \<in> set xs. \<exists>y. f x = Inr y
     \<Longrightarrow> \<exists>ys. mapThrowing f xs = Inr ys \<and> list_all2 (\<lambda>x y. f x = Inr y) xs ys"
proof (induction xs)
  case Nil
  show ?case by simp
next
  case (Cons x xs)
  from Cons.prems obtain y where y: "f x = Inr y" by auto
  from Cons.prems have "\<exists>ys. mapThrowing f xs = Inr ys \<and> list_all2 (\<lambda>x y. f x = Inr y) xs ys"
    by (intro Cons.IH) simp
  then obtain ys where "mapThrowing f xs = Inr ys" "list_all2 (\<lambda>x y. f x = Inr y) xs ys"
    by blast
  with y show ?case by simp
qed

lemma updateRow_matched:
  "lookupRow rowsByNumber i = Some row
     \<Longrightarrow> updateRow rowsByNumber i = Inr \<lparr>fields_row = fieldsFromIssue i, id_row = id_row row\<rparr>"
  by (simp add: updateRow_def)

text \<open>
  Claim C4, as the code has it. Reading \<open>split\<close> of a projected value that is not a string
  throws, which happens when the matched row keeps \<open>Issue Number\<close> or \<open>Description\<close> in an
  array cell. For every list of issues and every list of existing rows none of which stores
  \<open>Issue Number\<close> or \<open>Description\<close> as an array, the two lists are produced: the issues to
  insert are exactly the issues no row matches; the issues to update are issues of the input
  that a row matches and for which the comparison of some field other than the timestamps
  declares a difference, each sent under the identifier of its row; no issue is in both
  lists; and a matched issue none of whose fields is declared different is in neither.
\<close>

theorem reconciliation_partition:
  assumes "\<forall>row \<in> set existingRows.
             \<not> instanceofArray (getField (fields_row row) ''Issue Number'')
           \<and> \<not> instanceofArray (getField (fields_row row) ''Description'')"
  shows "\<exists>changed rows.
      toUpdateIssues issues existingRows = Inr changed
    \<and> toUpdate issues existingRows = Inr rows
    \<and> list_all2 (\<lambda>i u. updateRow (issueNumbersToExistingRows existingRows) i = Inr u)
         changed rows
    \<and> set (toInsert issues existingRows)
        = {i \<in> set issues. \<forall>row \<in> set existingRows.
             toString (getField (fields_row row) ''Issue Number'')
               \<noteq> toString (JNum (int (number i)))}
    \<and> set (toInsert issues existingRows) \<inter> set changed = {}
    \<and> (\<forall>i \<in> set changed. i \<in> set issues
          \<and> (\<exists>row \<in> set existingRows.
                lookupRow (issueNumbersToExistingRows existingRows) i = Some row
              \<and> (\<exists>key \<in> set (map fst (withoutTimestamps (fieldsFromIssue i))).
                    compareField (fields_row row) (withoutTimestamps (fieldsFromIssue i)) key
                      = Inr (Return True))))
    \<and> (\<forall>i \<in> set issues. \<forall>row.
          lookupRow (issueNumbersToExistingRows existingRows) i = Some row
          \<and> (\<forall>key \<in> set (map fst (withoutTimestamps (fieldsFromIssue i))).
                compareField (fields_row row) (withoutTimestamps (fieldsFromIssue i)) key
                  \<noteq> Inr (Return True))
          \<longrightarrow> i \<notin> set (toInsert issues existingRows) \<and> i \<notin> set changed)"
proof -
  let ?m = "issueNumbersToExistingRows existingRows"
  let ?matched = "existingIssues issues existingRows"
  let ?changed = "filter (\<lambda>i. needsUpdate ?m i = Inr True) ?matched"
  have matched: "\<exists>row \<in> set existingRows. lookupRow ?m i = Some row" if "i \<in> set ?matched" for i
  proof -
    from that obtain row where r: "lookupRow ?m i = Some row"
      by (auto simp: existingIssues_def)
    then have "row \<in> set existingRows"
      using issueNumbersToExistingRows_Some [of existingRows _ row] by (simp add: lookupRow_def)
    with r show ?thesis by blast
  qed
  have total: "\<exists>b. needsUpdate ?m i = Inr b" if "i \<in> set ?matched" for i
  proof -
    from matched [OF that] obtain row where "row \<in> set existingRows" "lookupRow ?m i = Some row"
      by blast
    with assms show ?thesis by (intro needsUpdate_total) auto
  qed
  then have changed: "toUpdateIssues issues existingRows = Inr ?changed"
    unfolding toUpdateIssues_def changedIssues_def by (intro filterThrowing_total) blast
  have "\<exists>u. updateRow ?m i = Inr u" if "i \<in> set ?changed" for i
  proof -
    from that have "i \<in> set ?matched" by simp
    from matched [OF this] show ?thesis by (auto simp: updateRow_matched)
  qed
  then have "\<exists>rows. mapThrowing (updateRow ?m) ?changed = Inr rows
      \<and> list_all2 (\<lambda>i u. updateRow ?m i = Inr u) ?changed rows"
    by (intro mapThrowing_total) blast
  then obtain rows where rows: "mapThrowing (updateRow ?m) ?changed = Inr rows"
      "list_all2 (\<lambda>i u. updateRow ?m i = Inr u) ?changed rows"
    by blast
  from changed have upd: "toUpdate issues existingRows = Inr rows"
    by (simp add: toUpdate_def rowsToUpdate_def toUpdateIssues_def rows(1))
  have ins: "set (toInsert issues existingRows)
        = {i \<in> set issues. \<forall>row \<in> set existingRows.
             toString (getField (fields_row row) ''Issue Number'')
               \<noteq> toString (JNum (int (number i)))}"
    by (simp add: toInsert_def lookupRow_eq_None)
  have disj: "set (toInsert issues existingRows) \<inter> set ?changed = {}"
    by (auto simp: toInsert_def existingIssues_def)
  have differs: "i \<in> set issues
          \<and> (\<exists>row \<in> set existingRows. lookupRow ?m i = Some row
              \<and> (\<exists>key \<in> set (map fst (withoutTimestamps (fieldsFromIssue i))).
                    compareField (fields_row row) (withoutTimestamps (fieldsFromIssue i)) key
                      = Inr (Return True)))"
    if "i \<in> set ?changed" for i
  proof -
    from that have m: "i \<in> set ?matched" and n: "needsUpdate ?m i = Inr True" by simp_all
    from m have "i \<in> set issues" by (simp add: existingIssues_def)
    moreover from matched [OF m] needsUpdate_True [OF n]
    have "\<exists>row \<in> set existingRows. lookupRow ?m i = Some row
              \<and> (\<exists>key \<in> set (map fst (withoutTimestamps (fieldsFromIssue i))).
                    compareField (fields_row row) (withoutTimestamps (fieldsFromIssue i)) key
                      = Inr (Return True))"
      by force
    ultimately show ?thesis by blast
  qed
  have same: "i \<notin> set (toInsert issues existingRows) \<and> i \<notin> set ?changed"
    if "lookupRow ?m i = Some row"
      and "\<forall>key \<in> set (map fst (withoutTimestamps (fieldsFromIssue i))).
                compareField (fields_row row) (withoutTimestamps (fieldsFromIssue i)) key
                  \<noteq> Inr (Return True)"
    for i row
  proof -
    from that(1) have "i \<notin> set (toInsert issues existingRows)"
      by (simp add: toInsert_def)
    moreover have "needsUpdate ?m i \<noteq> Inr True"
    proof
      assume "needsUpdate ?m i = Inr True"
      from needsUpdate_True [OF this] that show False by force
    qed
    ultimately show ?thesis by simp
  qed
  from changed upd rows(2) ins disj differs same show ?thesis
    by (intro exI [of _ ?changed] exI [of _ rows]) blast
qed

theorem reconciliation_partition_witness:
  "\<not> instanceofArray (getField (fields_row row2_same) ''Issue Number'')
   \<and> \<not> instanceofArray (getField (fields_row row2_same) ''Description'')
   \<and> \<not> instanceofArray (getField (fields_row row5_string) ''Issue Number'')
   \<and> \<not> instanceofArray (getField (fields_row row5_string) ''Description'')
   \<and> toInsert [issue1, issue2, issue5] [row2_same, row5_string] = [issue1]
   \<and> toUpdateIssues [issue1, issue2, issue5] [row2_same, row5_string] = Inr [issue5]
   \<and> toUpdate [issue1, issue2, issue5] [row2_same, row5_string]
       = Inr [\<lparr>fields_row = fieldsFromIssue issue5, id_row = ''recB''\<rparr>]"
proof -
  have wf: "\<forall>row \<in> set [row2_same, row5_string].
       \<not> instanceofArray (getField (fields_row row) ''Issue Number'')
     \<and> \<not> instanceofArray (getField (fields_row row) ''Description'')"
    by (simp add: row2_same_def row5_string_def getField_def)
  have a: "toInsert [issue1, issue2, issue5] [row2_same, row5_string] = [issue1]"
    by code_simp
  have b: "toUpdateIssues [issue1, issue2, issue5] [row2_same, row5_string] = Inr [issue5]"
    by code_simp
  have c: "toUpdate [issue1, issue2, issue5] [row2_same, row5_string]
       = Inr [\<lparr>fields_row = fieldsFromIssue issue5, id_row = ''recB''\<rparr>]"
    by code_simp
  from reconciliation_partition [OF wf, of "[issue1, issue2, issue5]"] wf a b c
  show ?thesis by simp
qed

text \<open>
  The claim as written fails on a row that keeps the issue number in an array cell: the row
  matches issue #5 by its string form, the array branch then calls \<open>split\<close> on the number
  5, and no list of issues to update is produced.
\<close>

theorem array_issue_number_throws:
  "lookupRow (issueNumbersToExistingRows [row5_number_array]) issue5 = Some row5_number_array
   \<and> getField (fields_row row5_number_array) ''Issue Number'' = JArr [JStr ''5'']
   \<and> toUpdateIssues [issue5] [row5_number_array] = Inl TypeError
   \<and> toUpdate [issue5] [row5_number_array] = Inl TypeError
   \<and> importIssuesToAirtable writeAll writeAll [issue5] [row5_number_array] = None"
  by code_simp

subsection \<open>The end-to-end scenario\<close>

lemma empty_destination_scenario:
  "importIssuesToAirtable writeAll writeAll [issue1, issue2] [] = Some (2, 0)
   \<and> map_of (fieldsFromIssue issue2) ''Assigned to'' = Some (JStr ''@alice'')
   \<and> map_of (fieldsFromIssue issue1) ''Assigned to'' = None"
  by code_simp

end
